theory Spec2Isabelle
  imports Complex_Main
begin

section \<open>Coordinate-ascent optimisation (optimization.py)\<close>

subsection \<open>Data model\<close>

text \<open>
  A Python number is an \<open>int\<close> or a \<open>float\<close>. Floats are modelled by the real number
  they denote: rounding, NaN and the infinities of binary64 are outside the model.
\<close>

datatype pynum = PyInt int | PyFloat real

text \<open>\<open>int(x)\<close>: the identity on an int, truncation toward zero on a float.\<close>

fun int_of_num :: "pynum \<Rightarrow> int" where
  "int_of_num (PyInt n) = n"
| "int_of_num (PyFloat x) = (if 0 \<le> x then \<lfloor>x\<rfloor> else \<lceil>x\<rceil>)"

text \<open>\<open>float(x)\<close> of a number.\<close>

fun float_of_num :: "pynum \<Rightarrow> real" where
  "float_of_num (PyInt n) = real_of_int n"
| "float_of_num (PyFloat x) = x"

text \<open>
  \<open>class Param(TypedDict)\<close>: a dict object. \<open>addr\<close> is the identity of the object, the
  thing that \<open>is\<close> and \<open>is not\<close> compare; the three other fields are its items. The
  program never assigns into a Param, so an object and its items travel together.
\<close>

record Param =
  addr :: nat
  param_value :: pynum
  ratio :: bool
  is_int :: bool

text \<open>\<open>class Result(TypedDict)\<close>. The score is only negated, subtracted and compared.\<close>

record Result =
  result_value :: real
  settings :: "Param list"

text \<open>
  What crosses the boundary to the objective: the elements of \<open>params_to_pass\<close> and of
  the echoed \<open>settings\<close> are ints, floats or strings.
\<close>

datatype encoded = IntV int | FloatV real | StrV string

type_synonym objective = "encoded list \<Rightarrow> real \<times> encoded list"

datatype error = DifferentListLengthException | IndexError | ValueError

text \<open>
  \<open>scipy.optimize.minimize\<close> is a black box that calls the function it is given a finite
  number of times, each point chosen from the values returned so far, and then reports
  an optimum: \<open>Evaluate x k\<close> calls the function at \<open>x\<close> and goes on as \<open>k y\<close> with the
  returned \<open>y\<close>; \<open>Finish x\<close> reports \<open>x\<close>.
\<close>

datatype solver = Finish real | Evaluate real "real \<Rightarrow> solver"

text \<open>
  What the module takes from outside the repository: the text of a number inside an
  f-string, \<open>float(s)\<close> of a string (\<open>None\<close> when it raises ValueError), and
  \<open>minimize\<close> with method Powell, as a function of the start point and the bounds.
\<close>

record runtime =
  format_num :: "pynum \<Rightarrow> string"
  float_of_str :: "string \<Rightarrow> real option"
  minimize :: "real \<Rightarrow> real \<times> real \<Rightarrow> solver"

text \<open>
  The state. \<open>results_of_single_param_optimization\<close> is the class attribute. The two
  other fields are not variables of the program: \<open>next_addr\<close> is the identity the next
  new object gets, and \<open>objective_calls\<close> logs the argument of every call of the
  objective, so that "no evaluation was made" is a statement about the state.
\<close>

record state =
  results_of_single_param_optimization :: "Result list"
  next_addr :: nat
  objective_calls :: "encoded list list"

definition MIN_DIFF_BETWEEN_ITERATIONS :: real where
  "MIN_DIFF_BETWEEN_ITERATIONS = 30"

subsection \<open>Encoding and decoding\<close>

text \<open>\<open>list.insert(i, x)\<close>: a negative index counts from the end, and both ends clamp.\<close>

definition py_insert :: "'a list \<Rightarrow> int \<Rightarrow> 'a \<Rightarrow> 'a list" where
  "py_insert xs i x =
     (let n = int (length xs);
          j = (if i < 0 then max 0 (n + i) else min i n)
      in take (nat j) xs @ x # drop (nat j) xs)"

text \<open>
  The wire form of one value, the same expression for a fixed parameter (lines 38-45)
  and for the candidate (lines 47-52).
\<close>

definition encode_value :: "runtime \<Rightarrow> pynum \<Rightarrow> bool \<Rightarrow> bool \<Rightarrow> encoded" where
  "encode_value rt v is_ratio as_int =
     (if is_ratio then StrV (format_num rt v @ ''k'')
      else if as_int then IntV (int_of_num v) else FloatV (float_of_num v))"

definition gather_params_to_pass ::
  "runtime \<Rightarrow> real \<Rightarrow> int \<Rightarrow> bool \<Rightarrow> bool \<Rightarrow> Param list \<Rightarrow> encoded list" where
  "gather_params_to_pass rt param param_index param_ratio is_param_int fixed_params =
     (let result_params =
            map (\<lambda>current_param.
                   encode_value rt (param_value current_param) (ratio current_param)
                     (is_int current_param)) fixed_params
      in py_insert result_params param_index
           (encode_value rt (PyFloat param) param_ratio is_param_int))"

text \<open>
  One element of the comprehension of lines 78-89, building the object at address \<open>a\<close>.
  \<open>setting[:-1]\<close> is \<open>butlast\<close>.
\<close>

fun decode_setting :: "runtime \<Rightarrow> nat \<Rightarrow> encoded \<Rightarrow> error + Param" where
  "decode_setting rt a (StrV s) =
     (case float_of_str rt (butlast s) of
        None \<Rightarrow> Inl ValueError
      | Some x \<Rightarrow> Inr \<lparr>addr = a, param_value = PyFloat x, ratio = True, is_int = False\<rparr>)"
| "decode_setting rt a (IntV n) =
     Inr \<lparr>addr = a, param_value = PyInt n, ratio = False, is_int = True\<rparr>"
| "decode_setting rt a (FloatV x) =
     Inr \<lparr>addr = a, param_value = PyFloat x, ratio = False, is_int = False\<rparr>"

text \<open>The comprehension: every element is a new object, so the addresses go up by one.\<close>

fun decode_settings :: "runtime \<Rightarrow> nat \<Rightarrow> encoded list \<Rightarrow> error + Param list" where
  "decode_settings rt a [] = Inr []"
| "decode_settings rt a (s # ss) =
     (case decode_setting rt a s of
        Inl e \<Rightarrow> Inl e
      | Inr p \<Rightarrow>
          (case decode_settings rt (Suc a) ss of
             Inl e \<Rightarrow> Inl e
           | Inr ps \<Rightarrow> Inr (p # ps)))"

subsection \<open>The scalar wrapper and the single-parameter optimiser\<close>

definition func_to_optimize ::
  "runtime \<Rightarrow> objective \<Rightarrow> Param list \<Rightarrow> real \<Rightarrow> int \<Rightarrow> bool \<Rightarrow> bool \<Rightarrow> state
     \<Rightarrow> (error + real) \<times> state" where
  "func_to_optimize rt function fixed_params param param_index param_ratio is_param_int st =
     (let params_to_pass =
            gather_params_to_pass rt param param_index param_ratio is_param_int fixed_params;
          (result, echoed) = function params_to_pass;
          st1 = st\<lparr>objective_calls := objective_calls st @ [params_to_pass]\<rparr>
      in case decode_settings rt (next_addr st1) echoed of
           Inl e \<Rightarrow> (Inl e, st1)
         | Inr settings_params \<Rightarrow>
             (Inr (- result),
              st1\<lparr>results_of_single_param_optimization :=
                     results_of_single_param_optimization st1
                       @ [\<lparr>result_value = result, settings = settings_params\<rparr>],
                   next_addr := next_addr st1 + length echoed\<rparr>))"

text \<open>The solver calling the wrapper; an exception of the wrapper ends the run.\<close>

primrec run_solver ::
  "(real \<Rightarrow> state \<Rightarrow> (error + real) \<times> state) \<Rightarrow> solver \<Rightarrow> state \<Rightarrow> (error + real) \<times> state"
  where
  "run_solver f (Finish x) = (\<lambda>st. (Inr x, st))"
| "run_solver f (Evaluate x k) =
     (\<lambda>st. case f x st of
              (Inl e, st') \<Rightarrow> (Inl e, st')
            | (Inr y, st') \<Rightarrow> run_solver f (k y) st')"

text \<open>
  \<open>sort(key=lambda r: r["value"], reverse=True)\<close> is stable: a stable ascending sort on
  the negated key.
\<close>

definition optimize_one ::
  "runtime \<Rightarrow> objective \<Rightarrow> Param \<Rightarrow> real \<times> real \<Rightarrow> int \<Rightarrow> Param list \<Rightarrow> state
     \<Rightarrow> (error + Result) \<times> state" where
  "optimize_one rt function param param_bounds param_index fixed_params st =
     (let st0 = st\<lparr>results_of_single_param_optimization := []\<rparr>;
          tuned_function = func_to_optimize rt function fixed_params
      in case run_solver
                (\<lambda>x. tuned_function x param_index (ratio param) (is_int param))
                (minimize rt (float_of_num (param_value param)) param_bounds) st0 of
           (Inl e, st1) \<Rightarrow> (Inl e, st1)
         | (Inr reported, st1) \<Rightarrow>
             (let sorted = sort_key (\<lambda>r. - result_value r)
                             (results_of_single_param_optimization st1);
                  st2 = st1\<lparr>results_of_single_param_optimization := sorted\<rparr>
              in case sorted of
                   [] \<Rightarrow> (Inl IndexError, st2)
                 | r # rs \<Rightarrow> (Inr r, st2)))"

subsection \<open>The driver\<close>

text \<open>The tuple built at lines 122-128: the objects that are not the current one.\<close>

definition fixed_params_of :: "Param list \<Rightarrow> Param \<Rightarrow> Param list" where
  "fixed_params_of best_settings current_param =
     filter (\<lambda>param. addr param \<noteq> addr current_param) best_settings"

text \<open>
  The body of the \<open>for\<close> loop. \<open>best_result["settings"][i]\<close> raises IndexError out of
  range; \<open>bounds[i]\<close> is in range, since \<open>i < len(params) = len(bounds)\<close>.
\<close>

definition optimize_param ::
  "runtime \<Rightarrow> objective \<Rightarrow> (real \<times> real) list \<Rightarrow> nat \<Rightarrow> Result \<Rightarrow> state
     \<Rightarrow> (error + Result) \<times> state" where
  "optimize_param rt function bounds i best_result st =
     (if i < length (settings best_result) then
        (let current_param = settings best_result ! i;
             fixed_params = fixed_params_of (settings best_result) current_param
         in optimize_one rt function current_param (bounds ! i) (int i) fixed_params st)
      else (Inl IndexError, st))"

text \<open>\<open>for i in range(len(params))\<close>, over the indices still to do.\<close>

fun sweep ::
  "runtime \<Rightarrow> objective \<Rightarrow> (real \<times> real) list \<Rightarrow> nat list \<Rightarrow> Result \<Rightarrow> state
     \<Rightarrow> (error + Result) \<times> state" where
  "sweep rt function bounds [] best_result st = (Inr best_result, st)"
| "sweep rt function bounds (i # is) best_result st =
     (case optimize_param rt function bounds i best_result st of
        (Inl e, st') \<Rightarrow> (Inl e, st')
      | (Inr best_result', st') \<Rightarrow> sweep rt function bounds is best_result' st')"

text \<open>\<open>while True\<close>: \<open>None\<close> is a loop that never returns.\<close>

partial_function (option) optimize_loop ::
  "runtime \<Rightarrow> objective \<Rightarrow> Param list \<Rightarrow> (real \<times> real) list \<Rightarrow> Result \<Rightarrow> Result \<Rightarrow> state
     \<Rightarrow> ((error + Result) \<times> state) option" where
  "optimize_loop rt function params bounds best_result result_of_all_params_iteration st =
     (case sweep rt function bounds [0..<length params] best_result st of
        (Inl e, st') \<Rightarrow> Some (Inl e, st')
      | (Inr best_result', st') \<Rightarrow>
          (if result_value best_result' - result_value result_of_all_params_iteration
                < MIN_DIFF_BETWEEN_ITERATIONS
           then Some (Inr result_of_all_params_iteration, st')
           else optimize_loop rt function params bounds best_result' best_result' st'))"

declare optimize_loop.simps [code]

definition optimize_all ::
  "runtime \<Rightarrow> objective \<Rightarrow> Param list \<Rightarrow> (real \<times> real) list \<Rightarrow> state
     \<Rightarrow> ((error + Result) \<times> state) option" where
  "optimize_all rt function params bounds st =
     (if length params \<noteq> length bounds then Some (Inl DifferentListLengthException, st)
      else optimize_loop rt function params bounds
             \<lparr>result_value = 0, settings = params\<rparr>
             \<lparr>result_value = 0, settings = params\<rparr>
             (st\<lparr>results_of_single_param_optimization := []\<rparr>))"

subsection \<open>Solvers that differ in what they report\<close>

text \<open>The same evaluations, with the reported optimum changed by \<open>g\<close>.\<close>

primrec with_reported :: "(real \<Rightarrow> real) \<Rightarrow> solver \<Rightarrow> solver" where
  "with_reported g (Finish x) = Finish (g x)"
| "with_reported g (Evaluate x k) = Evaluate x (\<lambda>y. with_reported g (k y))"

subsection \<open>The points a solver evaluates\<close>

text \<open>The points the solver calls a function \<open>h\<close> at, in the order of the calls.\<close>

primrec evaluated_points :: "(real \<Rightarrow> real) \<Rightarrow> solver \<Rightarrow> real list" where
  "evaluated_points h (Finish x) = []"
| "evaluated_points h (Evaluate x k) = x # evaluated_points h (k (h x))"

subsection \<open>Example inputs\<close>

text \<open>
  The two text functions, on the numbers the examples format and parse:
  \<open>f"{10}"\<close> is \<open>10\<close>, \<open>f"{10.0}"\<close> is \<open>10.0\<close>, and \<open>float\<close> reads both as ten. No
  example formats another number or parses another string; there the two functions
  give the empty text and ValueError.
\<close>

definition example_format :: "pynum \<Rightarrow> string" where
  "example_format v =
     (if v = PyInt 10 then ''10'' else if v = PyFloat 10 then ''10.0'' else [])"

definition example_float :: "string \<Rightarrow> real option" where
  "example_float s = (if s = ''10'' \<or> s = ''10.0'' then Some 10 else None)"

definition example_runtime :: "(real \<Rightarrow> real \<times> real \<Rightarrow> solver) \<Rightarrow> runtime" where
  "example_runtime m =
     \<lparr>format_num = example_format, float_of_str = example_float, minimize = m\<rparr>"

text \<open>A solver that evaluates one point, one above its start, and reports it.\<close>

definition one_step :: "real \<Rightarrow> real \<times> real \<Rightarrow> solver" where
  "one_step x0 b = Evaluate (x0 + 1) (\<lambda>y. Finish (x0 + 1))"

text \<open>A solver that evaluates 1, 3 and 2, in this order, and reports the last point.\<close>

definition three_steps :: "real \<Rightarrow> real \<times> real \<Rightarrow> solver" where
  "three_steps x0 b = Evaluate 1 (\<lambda>y1. Evaluate 3 (\<lambda>y2. Evaluate 2 (\<lambda>y3. Finish 2)))"

text \<open>A solver that evaluates nothing.\<close>

definition no_step :: "real \<Rightarrow> real \<times> real \<Rightarrow> solver" where
  "no_step x0 b = Finish x0"

text \<open>Objectives that echo what they receive, as \<open>function\<close> of step_optimization.py does.\<close>

definition ramp :: objective where
  "ramp xs = (case xs of FloatV x # rest \<Rightarrow> 29 + x | _ \<Rightarrow> 0, xs)"

definition peak :: objective where
  "peak xs = (case xs of [FloatV x] \<Rightarrow> - ((x - 3) * (x - 3)) | _ \<Rightarrow> 0, xs)"

definition flat :: objective where
  "flat xs = (5, xs)"

text \<open>An objective that echoes no settings at all.\<close>

definition mute :: objective where
  "mute xs = (5, [])"

definition p0 :: Param where
  "p0 = \<lparr>addr = 0, param_value = PyFloat 0, ratio = False, is_int = False\<rparr>"

definition p1 :: Param where
  "p1 = \<lparr>addr = 1, param_value = PyFloat 0, ratio = False, is_int = False\<rparr>"

definition st0 :: state where
  "st0 = \<lparr>results_of_single_param_optimization = [], next_addr = 2, objective_calls = []\<rparr>"

text \<open>A parameter with a fractional value in integer mode, and one with both flags set.\<close>

definition q27 :: Param where
  "q27 = \<lparr>addr = 1, param_value = PyFloat (27 / 10), ratio = False, is_int = True\<rparr>"

definition p10 :: Param where
  "p10 = \<lparr>addr = 0, param_value = PyInt 10, ratio = True, is_int = True\<rparr>"

text \<open>The run of \<open>ramp\<close> on the single parameter \<open>p0\<close>: the results and states of its
  two sweeps.\<close>

definition ramp_best1 :: Result where
  "ramp_best1 = \<lparr>result_value = 30,
     settings = [\<lparr>addr = 2, param_value = PyFloat 1, ratio = False, is_int = False\<rparr>]\<rparr>"

definition ramp_best2 :: Result where
  "ramp_best2 = \<lparr>result_value = 31,
     settings = [\<lparr>addr = 3, param_value = PyFloat 2, ratio = False, is_int = False\<rparr>]\<rparr>"

definition ramp_st1 :: state where
  "ramp_st1 = \<lparr>results_of_single_param_optimization = [ramp_best1], next_addr = 3,
                objective_calls = [[FloatV 1]]\<rparr>"

definition ramp_st2 :: state where
  "ramp_st2 = \<lparr>results_of_single_param_optimization = [ramp_best2], next_addr = 4,
                objective_calls = [[FloatV 1], [FloatV 2]]\<rparr>"

text \<open>The run of \<open>ramp\<close> on the two parameters \<open>p0\<close> and \<open>p1\<close>: what it returns and the
  state it leaves.\<close>

definition pair_result :: Result where
  "pair_result = \<lparr>result_value = 30,
     settings = [\<lparr>addr = 4, param_value = PyFloat 1, ratio = False, is_int = False\<rparr>,
                 \<lparr>addr = 5, param_value = PyFloat 1, ratio = False, is_int = False\<rparr>]\<rparr>"

definition pair_state :: state where
  "pair_state =
     \<lparr>results_of_single_param_optimization =
        [\<lparr>result_value = 31,
          settings = [\<lparr>addr = 8, param_value = PyFloat 2, ratio = False, is_int = False\<rparr>,
                      \<lparr>addr = 9, param_value = PyFloat 2, ratio = False, is_int = False\<rparr>]\<rparr>],
      next_addr = 10,
      objective_calls = [[FloatV 1, FloatV 0], [FloatV 1, FloatV 1],
                         [FloatV 2, FloatV 1], [FloatV 2, FloatV 2]]\<rparr>"

text \<open>The run of \<open>peak\<close> under \<open>three_steps\<close>: the best result, the state when the
  solver has finished, and the state left after the sort.\<close>

definition peak_best :: Result where
  "peak_best = \<lparr>result_value = 0,
     settings = [\<lparr>addr = 3, param_value = PyFloat 3, ratio = False, is_int = False\<rparr>]\<rparr>"

definition peak_recorded :: state where
  "peak_recorded =
     \<lparr>results_of_single_param_optimization =
        [\<lparr>result_value = - 4,
          settings = [\<lparr>addr = 2, param_value = PyFloat 1, ratio = False, is_int = False\<rparr>]\<rparr>,
         peak_best,
         \<lparr>result_value = - 1,
          settings = [\<lparr>addr = 4, param_value = PyFloat 2, ratio = False, is_int = False\<rparr>]\<rparr>],
      next_addr = 5,
      objective_calls = [[FloatV 1], [FloatV 3], [FloatV 2]]\<rparr>"

definition peak_state :: state where
  "peak_state =
     \<lparr>results_of_single_param_optimization =
        [peak_best,
         \<lparr>result_value = - 1,
          settings = [\<lparr>addr = 4, param_value = PyFloat 2, ratio = False, is_int = False\<rparr>]\<rparr>,
         \<lparr>result_value = - 4,
          settings = [\<lparr>addr = 2, param_value = PyFloat 1, ratio = False, is_int = False\<rparr>]\<rparr>],
      next_addr = 5,
      objective_calls = [[FloatV 1], [FloatV 3], [FloatV 2]]\<rparr>"

text \<open>The run of \<open>flat\<close> on the two parameters: the state after the sweep.\<close>

definition flat_state :: state where
  "flat_state =
     \<lparr>results_of_single_param_optimization =
        [\<lparr>result_value = 5,
          settings = [\<lparr>addr = 4, param_value = PyFloat 1, ratio = False, is_int = False\<rparr>,
                      \<lparr>addr = 5, param_value = PyFloat 1, ratio = False, is_int = False\<rparr>]\<rparr>],
      next_addr = 6,
      objective_calls = [[FloatV 1, FloatV 0], [FloatV 1, FloatV 1]]\<rparr>"


section \<open>Properties\<close>

subsection \<open>Lists, decoding and encoding\<close>

lemma filter_addr_drop:
  "distinct (map addr ss) \<Longrightarrow> i < length ss \<Longrightarrow>
     filter (\<lambda>p. addr p \<noteq> addr (ss ! i)) ss = take i ss @ drop (Suc i) ss"
proof (induction ss arbitrary: i)
  case Nil
  then show ?case by simp
next
  case (Cons s ss)
  show ?case
  proof (cases i)
    case 0
    have "addr s \<notin> addr ` set ss" using Cons.prems(1) by simp
    then have "\<forall>p\<in>set ss. addr p \<noteq> addr s" by (metis imageI)
    then have "filter (\<lambda>p. addr p \<noteq> addr s) ss = ss" by (simp add: filter_id_conv)
    with 0 show ?thesis by simp
  next
    case (Suc j)
    then have j: "j < length ss" using Cons.prems(2) by simp
    moreover have "addr s \<notin> addr ` set ss" using Cons.prems(1) by simp
    ultimately have "addr (ss ! j) \<noteq> addr s" by (metis imageI nth_mem)
    moreover have "filter (\<lambda>p. addr p \<noteq> addr (ss ! j)) ss = take j ss @ drop (Suc j) ss"
      using Cons.IH [of j] Cons.prems(1) j by simp
    ultimately show ?thesis using Suc by auto
  qed
qed

lemma filter_addr_shorter:
  "i < length ss \<Longrightarrow> length (filter (\<lambda>p. addr p \<noteq> addr (ss ! i)) ss) < length ss"
  by (rule length_filter_less [of "ss ! i"]) simp_all

lemma decode_setting_addr: "decode_setting rt a s = Inr p \<Longrightarrow> addr p = a"
  by (cases s) (auto split: option.splits)

lemma decode_settings_addrs:
  "decode_settings rt a ss = Inr ps \<Longrightarrow> map addr ps = [a..<a + length ss]"
proof (induction ss arbitrary: a ps)
  case Nil
  then show ?case by simp
next
  case (Cons s ss)
  from Cons.prems obtain p qs where p: "decode_setting rt a s = Inr p"
    and qs: "decode_settings rt (Suc a) ss = Inr qs" and ps: "ps = p # qs"
    by (auto split: sum.splits)
  have "map addr qs = [Suc a..<Suc a + length ss]" using Cons.IH [OF qs] .
  then show ?case using decode_setting_addr [OF p] ps by (simp add: upt_rec)
qed

lemma decode_settings_length:
  "decode_settings rt a ss = Inr ps \<Longrightarrow> length ps = length ss"
  using decode_settings_addrs [of rt a ss ps]
  by (metis length_map length_upt add_diff_cancel_left')

lemma decode_settings_distinct:
  "decode_settings rt a ss = Inr ps \<Longrightarrow> distinct (map addr ps)"
  using decode_settings_addrs [of rt a ss ps] by simp

lemma decode_settings_total:
  "\<forall>s. StrV s \<in> set ss \<longrightarrow> float_of_str rt (butlast s) \<noteq> None \<Longrightarrow>
     \<exists>ps. decode_settings rt a ss = Inr ps"
proof (induction ss arbitrary: a)
  case Nil
  then show ?case by simp
next
  case (Cons s ss)
  have "\<exists>p. decode_setting rt a s = Inr p"
    using Cons.prems by (cases s) auto
  moreover have "\<exists>ps. decode_settings rt (Suc a) ss = Inr ps"
    using Cons.IH [of "Suc a"] Cons.prems by simp
  ultimately show ?case by auto
qed

lemma length_py_insert: "length (py_insert xs i x) = Suc (length xs)"
  by (simp add: py_insert_def Let_def)

lemma length_gather_params_to_pass:
  "length (gather_params_to_pass rt x i r ii fixed) = Suc (length fixed)"
  by (simp add: gather_params_to_pass_def length_py_insert)

lemma truncation_bounds:
  "\<bar>real_of_int (int_of_num v)\<bar> \<le> \<bar>float_of_num v\<bar>
   \<and> \<bar>float_of_num v\<bar> < \<bar>real_of_int (int_of_num v)\<bar> + 1
   \<and> 0 \<le> real_of_int (int_of_num v) * float_of_num v"
proof (cases v)
  case (PyInt n)
  then show ?thesis by simp
next
  case (PyFloat x)
  show ?thesis
  proof (cases "0 \<le> x")
    case True
    then have "0 \<le> \<lfloor>x\<rfloor>" by simp
    then show ?thesis using True PyFloat by simp
  next
    case False
    then have "\<lceil>x\<rceil> \<le> 0" by (simp add: ceiling_le_iff)
    then have c: "real_of_int \<lceil>x\<rceil> \<le> 0" by simp
    have b: "x \<le> real_of_int \<lceil>x\<rceil>" "real_of_int \<lceil>x\<rceil> < x + 1" by linarith+
    have x: "x \<le> 0" using False by simp
    have "\<bar>real_of_int \<lceil>x\<rceil>\<bar> \<le> \<bar>x\<bar>" using c b x by linarith
    moreover have "\<bar>x\<bar> < \<bar>real_of_int \<lceil>x\<rceil>\<bar> + 1" using c b x by linarith
    moreover have "0 \<le> real_of_int \<lceil>x\<rceil> * x" using c x by (rule mult_nonpos_nonpos)
    ultimately show ?thesis using False PyFloat by simp
  qed
qed

subsection \<open>The history under the wrapper and the solver\<close>

text \<open>One call of the wrapper leaves the history as it is (when decoding raises) or
  appends one result, built from fresh objects out of what the objective returned.\<close>

lemma func_to_optimize_history:
  assumes "func_to_optimize rt function fixed x i r ii st = (res, st')"
  shows "results_of_single_param_optimization st' = results_of_single_param_optimization st
         \<or> (\<exists>rec. results_of_single_param_optimization st'
                    = results_of_single_param_optimization st @ [rec]
                \<and> distinct (map addr (settings rec))
                \<and> result_value rec = fst (function (gather_params_to_pass rt x i r ii fixed))
                \<and> length (settings rec)
                    = length (snd (function (gather_params_to_pass rt x i r ii fixed))))"
  using assms
  by (auto simp: func_to_optimize_def Let_def decode_settings_length decode_settings_distinct
           split: prod.splits sum.splits)

lemma func_to_optimize_total:
  assumes "\<forall>xs s. StrV s \<in> set (snd (function xs)) \<longrightarrow> float_of_str rt (butlast s) \<noteq> None"
  shows "\<exists>y st'. func_to_optimize rt function fixed x i r ii st = (Inr y, st')
           \<and> length (results_of_single_param_optimization st')
               = Suc (length (results_of_single_param_optimization st))"
proof -
  let ?xs = "gather_params_to_pass rt x i r ii fixed"
  obtain score echoed where f: "function ?xs = (score, echoed)" by (cases "function ?xs")
  then have "\<forall>s. StrV s \<in> set echoed \<longrightarrow> float_of_str rt (butlast s) \<noteq> None"
    using assms by (metis snd_conv)
  then obtain ps where
    "decode_settings rt (next_addr (st\<lparr>objective_calls := objective_calls st @ [?xs]\<rparr>)) echoed
       = Inr ps"
    using decode_settings_total by blast
  then show ?thesis using f by (simp add: func_to_optimize_def Let_def)
qed

lemma run_solver_invariant:
  assumes step: "\<forall>x s res s'. f x s = (res, s') \<longrightarrow> I s \<longrightarrow> I s'"
  shows "I st \<Longrightarrow> run_solver f sol st = (res, st') \<Longrightarrow> I st'"
proof (induction sol arbitrary: st)
  case (Finish x)
  then show ?case by simp
next
  case (Evaluate x k)
  obtain r1 s1 where f: "f x st = (r1, s1)" by (cases "f x st")
  have s1: "I s1" using step f Evaluate.prems(1) by blast
  show ?case
  proof (cases r1)
    case (Inl e)
    then show ?thesis using Evaluate.prems(2) f s1 by simp
  next
    case (Inr y)
    then have "run_solver f (k y) s1 = (res, st')" using Evaluate.prems(2) f by simp
    then show ?thesis using Evaluate.IH [of "k y" s1] s1 by blast
  qed
qed

lemma run_solver_total:
  assumes step: "\<forall>x s. \<exists>y s'. f x s = (Inr y, s')
                   \<and> length (results_of_single_param_optimization s')
                       = Suc (length (results_of_single_param_optimization s))"
  shows "\<exists>y st'. run_solver f sol st = (Inr y, st')
           \<and> length (results_of_single_param_optimization st)
               \<le> length (results_of_single_param_optimization st')
           \<and> (\<forall>x k. sol = Evaluate x k \<longrightarrow>
                  length (results_of_single_param_optimization st)
                    < length (results_of_single_param_optimization st'))"
proof (induction sol arbitrary: st)
  case (Finish x)
  then show ?case by simp
next
  case (Evaluate x k)
  from step obtain y s1 where f: "f x st = (Inr y, s1)"
    and len: "length (results_of_single_param_optimization s1)
                = Suc (length (results_of_single_param_optimization st))"
    by blast
  from Evaluate.IH [of "k y" s1] obtain y' st' where
    run: "run_solver f (k y) s1 = (Inr y', st')"
    and le: "length (results_of_single_param_optimization s1)
               \<le> length (results_of_single_param_optimization st')"
    by blast
  have "run_solver f (Evaluate x k) st = (Inr y', st')" using f run by simp
  then show ?case using len le by auto
qed

lemma run_solver_with_reported:
  "run_solver f (with_reported g sol) st =
     (case run_solver f sol st of (Inl e, s) \<Rightarrow> (Inl e, s) | (Inr x, s) \<Rightarrow> (Inr (g x), s))"
proof (induction sol arbitrary: st)
  case (Finish x)
  then show ?case by simp
next
  case (Evaluate x k)
  show ?case
  proof (cases "f x st")
    case (Pair r1 s1)
    then show ?thesis using Evaluate.IH by (cases r1) auto
  qed
qed

text \<open>The wrapper does not look at the solver.\<close>

lemma decode_settings_minimize:
  "decode_settings (rt\<lparr>minimize := m\<rparr>) a ss = decode_settings rt a ss"
proof (induction ss arbitrary: a)
  case Nil
  then show ?case by simp
next
  case (Cons s ss)
  have "decode_setting (rt\<lparr>minimize := m\<rparr>) a s = decode_setting rt a s" by (cases s) simp_all
  then show ?case using Cons.IH by (simp cong: sum.case_cong)
qed

lemma encode_value_minimize:
  "encode_value (rt\<lparr>minimize := m\<rparr>) v r ii = encode_value rt v r ii"
  by (cases r) (simp_all add: encode_value_def)

lemma gather_params_to_pass_minimize:
  "gather_params_to_pass (rt\<lparr>minimize := m\<rparr>) x i r ii fixed
     = gather_params_to_pass rt x i r ii fixed"
  by (simp add: gather_params_to_pass_def encode_value_minimize)

lemma func_to_optimize_minimize:
  "func_to_optimize (rt\<lparr>minimize := m\<rparr>) function fixed x i r ii
     = func_to_optimize rt function fixed x i r ii"
  by (rule ext)
     (simp add: func_to_optimize_def gather_params_to_pass_minimize decode_settings_minimize)

text \<open>When every echoed string can be read, one call of the wrapper logs the call and
  appends the score with the decoded echo.\<close>

lemma func_to_optimize_step:
  assumes "\<forall>xs s. StrV s \<in> set (snd (function xs)) \<longrightarrow> float_of_str rt (butlast s) \<noteq> None"
  shows "\<exists>ps. decode_settings rt (next_addr st)
                (snd (function (gather_params_to_pass rt x i r ii fixed))) = Inr ps
           \<and> func_to_optimize rt function fixed x i r ii st
               = (Inr (- fst (function (gather_params_to_pass rt x i r ii fixed))),
                  st\<lparr>objective_calls :=
                       objective_calls st @ [gather_params_to_pass rt x i r ii fixed],
                     results_of_single_param_optimization :=
                       results_of_single_param_optimization st
                         @ [\<lparr>result_value =
                               fst (function (gather_params_to_pass rt x i r ii fixed)),
                             settings = ps\<rparr>],
                     next_addr :=
                       next_addr st
                         + length (snd (function (gather_params_to_pass rt x i r ii fixed)))\<rparr>)"
proof -
  let ?xs = "gather_params_to_pass rt x i r ii fixed"
  obtain score echoed where f: "function ?xs = (score, echoed)" by (cases "function ?xs")
  then have "\<forall>s. StrV s \<in> set echoed \<longrightarrow> float_of_str rt (butlast s) \<noteq> None"
    using assms by (metis snd_conv)
  then obtain ps where "decode_settings rt (next_addr st) echoed = Inr ps"
    using decode_settings_total by blast
  then show ?thesis using f by (simp add: func_to_optimize_def Let_def)
qed

text \<open>Then the run of the solver never raises: it calls the objective once for each
  point the solver evaluates, in order, and appends one result for each.\<close>

lemma run_solver_records:
  assumes parse:
    "\<forall>xs s. StrV s \<in> set (snd (function xs)) \<longrightarrow> float_of_str rt (butlast s) \<noteq> None"
  shows "\<exists>y st' new.
           run_solver (\<lambda>x. func_to_optimize rt function fixed x i r ii) sol st = (Inr y, st')
         \<and> objective_calls st'
             = objective_calls st
               @ map (\<lambda>x. gather_params_to_pass rt x i r ii fixed)
                   (evaluated_points
                      (\<lambda>x. - fst (function (gather_params_to_pass rt x i r ii fixed))) sol)
         \<and> results_of_single_param_optimization st'
             = results_of_single_param_optimization st @ new
         \<and> list_all2
              (\<lambda>rec x.
                 result_value rec = fst (function (gather_params_to_pass rt x i r ii fixed))
                 \<and> length (settings rec)
                     = length (snd (function (gather_params_to_pass rt x i r ii fixed)))
                 \<and> (\<exists>a. decode_settings rt a
                            (snd (function (gather_params_to_pass rt x i r ii fixed)))
                          = Inr (settings rec)))
              new
              (evaluated_points
                 (\<lambda>x. - fst (function (gather_params_to_pass rt x i r ii fixed))) sol)"
proof (induction sol arbitrary: st)
  case (Finish x)
  then show ?case by simp
next
  case (Evaluate x k)
  let ?g = "\<lambda>x. gather_params_to_pass rt x i r ii fixed"
  let ?h = "\<lambda>x. - fst (function (?g x))"
  let ?R = "\<lambda>rec x. result_value rec = fst (function (?g x))
                 \<and> length (settings rec) = length (snd (function (?g x)))
                 \<and> (\<exists>a. decode_settings rt a (snd (function (?g x))) = Inr (settings rec))"
  from func_to_optimize_step [OF parse, of st x i r ii fixed] obtain ps st1 where
    dec: "decode_settings rt (next_addr st) (snd (function (?g x))) = Inr ps"
    and f: "func_to_optimize rt function fixed x i r ii st = (Inr (?h x), st1)"
    and calls1: "objective_calls st1 = objective_calls st @ [?g x]"
    and res1: "results_of_single_param_optimization st1
                 = results_of_single_param_optimization st
                   @ [\<lparr>result_value = fst (function (?g x)), settings = ps\<rparr>]"
    by fastforce
  from Evaluate.IH [of "k (?h x)" st1] obtain y st' new where
    run: "run_solver (\<lambda>x. func_to_optimize rt function fixed x i r ii) (k (?h x)) st1
            = (Inr y, st')"
    and calls: "objective_calls st'
                  = objective_calls st1 @ map ?g (evaluated_points ?h (k (?h x)))"
    and res: "results_of_single_param_optimization st'
                = results_of_single_param_optimization st1 @ new"
    and rel: "list_all2 ?R new (evaluated_points ?h (k (?h x)))"
    by blast
  let ?rec = "\<lparr>result_value = fst (function (?g x)), settings = ps\<rparr>"
  have "?R ?rec x"
    using dec decode_settings_length [OF dec] by auto
  then have "list_all2 ?R (?rec # new) (evaluated_points ?h (Evaluate x k))"
    using rel by simp
  moreover have "run_solver (\<lambda>x. func_to_optimize rt function fixed x i r ii)
                   (Evaluate x k) st = (Inr y, st')"
    using f run by simp
  moreover have "objective_calls st'
                   = objective_calls st @ map ?g (evaluated_points ?h (Evaluate x k))"
    using calls calls1 by simp
  moreover have "results_of_single_param_optimization st'
                   = results_of_single_param_optimization st @ (?rec # new)"
    using res res1 by simp
  ultimately show ?case by blast
qed

text \<open>The identity filter removes position \<open>i\<close> alone when the object there stands at no
  other position.\<close>

lemma filter_addr_drop_current:
  assumes "i < length ss"
    and "\<forall>j<length ss. j \<noteq> i \<longrightarrow> addr (ss ! j) \<noteq> addr (ss ! i)"
  shows "filter (\<lambda>p. addr p \<noteq> addr (ss ! i)) ss = take i ss @ drop (Suc i) ss"
proof -
  have before: "\<forall>p\<in>set (take i ss). addr p \<noteq> addr (ss ! i)"
  proof
    fix p assume "p \<in> set (take i ss)"
    then obtain j where "j < length (take i ss)" "take i ss ! j = p"
      by (auto simp: in_set_conv_nth)
    then have "j < i" "j < length ss" "ss ! j = p" using assms(1) by auto
    then show "addr p \<noteq> addr (ss ! i)" using assms(2) by auto
  qed
  have after: "\<forall>p\<in>set (drop (Suc i) ss). addr p \<noteq> addr (ss ! i)"
  proof
    fix p assume "p \<in> set (drop (Suc i) ss)"
    then obtain j where j: "j < length (drop (Suc i) ss)" "drop (Suc i) ss ! j = p"
      by (auto simp: in_set_conv_nth)
    then have "Suc i + j < length ss" "ss ! (Suc i + j) = p" by auto
    then show "addr p \<noteq> addr (ss ! i)" using assms(2) by auto
  qed
  have "ss = take i ss @ ss ! i # drop (Suc i) ss"
    using assms(1) by (rule id_take_nth_drop)
  then have "filter (\<lambda>p. addr p \<noteq> addr (ss ! i)) ss
               = filter (\<lambda>p. addr p \<noteq> addr (ss ! i)) (take i ss)
                 @ filter (\<lambda>p. addr p \<noteq> addr (ss ! i)) (drop (Suc i) ss)"
    by (metis (mono_tags, lifting) filter.simps(2) filter_append)
  then show ?thesis using before after by (simp add: filter_id_conv)
qed

subsection \<open>What \<open>optimize_one\<close> returns\<close>

lemma sort_key_head_max:
  assumes "sort_key (\<lambda>r. - result_value r) rs = r # rest"
  shows "r \<in> set rs \<and> (\<forall>r'\<in>set rs. result_value r' \<le> result_value r)"
proof -
  have "sorted (map (\<lambda>r. - result_value r) (sort_key (\<lambda>r. - result_value r) rs))"
    by (rule sorted_sort_key)
  then have "\<forall>r'\<in>set rest. - result_value r \<le> - result_value r'"
    using assms by simp
  moreover have "set rs = set (r # rest)"
    using assms by (metis set_sort)
  ultimately show ?thesis by auto
qed

lemma optimize_one_Inr:
  assumes "optimize_one rt function param b i fixed st = (Inr r, st')"
  shows "\<exists>reported st1 rest.
           run_solver (\<lambda>x. func_to_optimize rt function fixed x i (ratio param) (is_int param))
             (minimize rt (float_of_num (param_value param)) b)
             (st\<lparr>results_of_single_param_optimization := []\<rparr>) = (Inr reported, st1)
         \<and> sort_key (\<lambda>r. - result_value r) (results_of_single_param_optimization st1)
             = r # rest"
  using assms
  by (auto simp: optimize_one_def Let_def split: prod.splits sum.splits list.splits)

text \<open>Whatever \<open>optimize_one\<close> returns was recorded by one of its evaluations.\<close>

lemma optimize_one_recorded:
  assumes ok: "optimize_one rt function param b i fixed st = (Inr r, st')"
  shows "distinct (map addr (settings r))
         \<and> (\<exists>x. result_value r
                   = fst (function (gather_params_to_pass rt x i (ratio param) (is_int param) fixed))
                \<and> length (settings r)
                   = length (snd (function
                       (gather_params_to_pass rt x i (ratio param) (is_int param) fixed))))"
proof -
  let ?Q = "\<lambda>rec. distinct (map addr (settings rec))
         \<and> (\<exists>x. result_value rec
                   = fst (function (gather_params_to_pass rt x i (ratio param) (is_int param) fixed))
                \<and> length (settings rec)
                   = length (snd (function
                       (gather_params_to_pass rt x i (ratio param) (is_int param) fixed))))"
  let ?I = "\<lambda>s. \<forall>rec\<in>set (results_of_single_param_optimization s). ?Q rec"
  let ?f = "\<lambda>x. func_to_optimize rt function fixed x i (ratio param) (is_int param)"
  let ?st0 = "st\<lparr>results_of_single_param_optimization := []\<rparr>"
  have step: "\<forall>x s res s'. ?f x s = (res, s') \<longrightarrow> ?I s \<longrightarrow> ?I s'"
  proof (intro allI impI)
    fix x s res s'
    assume f: "?f x s = (res, s')" and I: "?I s"
    from func_to_optimize_history [OF f] I show "?I s'" by auto
  qed
  from optimize_one_Inr [OF ok] obtain reported st1 rest where
    run: "run_solver ?f (minimize rt (float_of_num (param_value param)) b) ?st0
            = (Inr reported, st1)"
    and hd: "sort_key (\<lambda>r. - result_value r) (results_of_single_param_optimization st1)
               = r # rest"
    by blast
  have "?I ?st0" by simp
  then have "?I st1" by (rule run_solver_invariant [OF step _ run])
  moreover have "r \<in> set (results_of_single_param_optimization st1)"
    using sort_key_head_max [OF hd] by simp
  ultimately show ?thesis by blast
qed

lemma optimize_one_shape:
  assumes echo: "\<forall>xs. length (snd (function xs)) = length xs"
    and ok: "optimize_one rt function param b i fixed st = (Inr r, st')"
  shows "distinct (map addr (settings r)) \<and> length (settings r) = Suc (length fixed)"
  using optimize_one_recorded [OF ok] echo by (auto simp: length_gather_params_to_pass)

subsection \<open>The length of the settings along a run\<close>

lemma optimize_param_shape:
  assumes echo: "\<forall>xs. length (snd (function xs)) = length xs"
    and ok: "optimize_param rt function bounds i best st = (Inr r, st')"
  shows "i < length (settings best) \<and> distinct (map addr (settings r))
         \<and> 0 < length (settings r) \<and> length (settings r) \<le> length (settings best)
         \<and> (distinct (map addr (settings best))
              \<longrightarrow> length (settings r) = length (settings best))"
proof -
  have i: "i < length (settings best)"
    using ok by (auto simp: optimize_param_def split: if_splits)
  let ?fixed = "fixed_params_of (settings best) (settings best ! i)"
  have one: "optimize_one rt function (settings best ! i) (bounds ! i) (int i) ?fixed st
               = (Inr r, st')"
    using ok i by (simp add: optimize_param_def Let_def)
  have shape: "distinct (map addr (settings r)) \<and> length (settings r) = Suc (length ?fixed)"
    using optimize_one_shape [OF echo one] .
  have "length ?fixed < length (settings best)"
    using filter_addr_shorter [OF i] by (simp add: fixed_params_of_def)
  moreover have "distinct (map addr (settings best))
                   \<Longrightarrow> Suc (length ?fixed) = length (settings best)"
    using filter_addr_drop [of "settings best" i] i by (simp add: fixed_params_of_def)
  ultimately show ?thesis using i shape by auto
qed

lemma sweep_shape:
  assumes echo: "\<forall>xs. length (snd (function xs)) = length xs"
  shows "distinct (map addr (settings best)) \<Longrightarrow>
         sweep rt function bounds js best st = (Inr r, st') \<Longrightarrow>
         distinct (map addr (settings r)) \<and> length (settings r) = length (settings best)
           \<and> (\<forall>j\<in>set js. j < length (settings best))"
proof (induction js arbitrary: best st)
  case Nil
  then show ?case by simp
next
  case (Cons j js)
  from Cons.prems(2) obtain b1 st1 where
    one: "optimize_param rt function bounds j best st = (Inr b1, st1)"
    and rest: "sweep rt function bounds js b1 st1 = (Inr r, st')"
    by (auto split: prod.splits sum.splits)
  from optimize_param_shape [OF echo one] Cons.prems(1)
  have b1: "j < length (settings best)" "distinct (map addr (settings b1))"
    "length (settings b1) = length (settings best)" by auto
  from Cons.IH [OF b1(2) rest] b1 show ?case by simp
qed

text \<open>A sweep that completes keeps the length, aliased caller objects or not: after an
  aliased first position the settings are too short, and a later index raises.\<close>

lemma sweep_all_length:
  assumes echo: "\<forall>xs. length (snd (function xs)) = length xs"
    and len: "length (settings best) = n"
    and ok: "sweep rt function bounds [0..<n] best st = (Inr r, st')"
  shows "length (settings r) = n"
proof (cases n)
  case 0
  then show ?thesis using ok len by simp
next
  case (Suc m)
  then have "[0..<n] = 0 # [1..<Suc m]" by (simp add: upt_rec)
  with ok obtain b1 st1 where
    one: "optimize_param rt function bounds 0 best st = (Inr b1, st1)"
    and rest: "sweep rt function bounds [1..<Suc m] b1 st1 = (Inr r, st')"
    by (auto split: prod.splits sum.splits)
  from optimize_param_shape [OF echo one]
  have b1: "distinct (map addr (settings b1))" "0 < length (settings b1)"
    "length (settings b1) \<le> n" using len by auto
  from sweep_shape [OF echo b1(1) rest]
  have r: "length (settings r) = length (settings b1)"
    and all: "\<forall>j\<in>set [1..<Suc m]. j < length (settings b1)" by auto
  have "n \<le> length (settings b1)"
  proof (cases m)
    case 0
    then show ?thesis using b1(2) \<open>n = Suc m\<close> by (simp add: Suc_le_eq)
  next
    case (Suc k)
    then have "m \<in> set [1..<Suc m]" by simp
    then have "m < length (settings b1)" using all by blast
    then show ?thesis using \<open>n = Suc m\<close> by simp
  qed
  then show ?thesis using r b1(3) by simp
qed

lemma optimize_loop_length:
  assumes run: "optimize_loop rt function params bounds best prev st = Some out"
  shows "\<forall>xs. length (snd (function xs)) = length xs \<Longrightarrow>
         length (settings best) = length params \<Longrightarrow>
         length (settings prev) = length params \<Longrightarrow>
         fst out = Inr r \<Longrightarrow> length (settings r) = length params"
  using run
proof (induction rt "function" params bounds best prev st out rule: optimize_loop.raw_induct)
  case (1 loop rt obj params bounds best prev st out)
  note echo = \<open>\<forall>xs. length (snd (obj xs)) = length xs\<close>
  obtain res st1 where sw: "sweep rt obj bounds [0..<length params] best st = (res, st1)"
    by (cases "sweep rt obj bounds [0..<length params] best st")
  show ?case
  proof (cases res)
    case (Inl e)
    then show ?thesis using "1.hyps" sw "1.prems"(4) by auto
  next
    case (Inr b1)
    have b1: "length (settings b1) = length params"
      using sweep_all_length [OF echo "1.prems"(2)] sw Inr by simp
    show ?thesis
    proof (cases "result_value b1 - result_value prev < MIN_DIFF_BETWEEN_ITERATIONS")
      case True
      then have "out = (Inr prev, st1)" using "1.hyps" sw Inr by simp
      then show ?thesis using "1.prems" by simp
    next
      case False
      then have "loop rt obj params bounds b1 b1 st1 = Some out"
        using "1.hyps" sw Inr by simp
      moreover have "optimize_loop rt obj params bounds b1 b1 st1 = Some out"
        using "1.prems"(5) sw Inr False by (subst (asm) optimize_loop.simps) simp
      ultimately show ?thesis using "1.IH" echo b1 "1.prems"(4) by blast
    qed
  qed
qed (rule run)

subsection \<open>The example runs\<close>

lemmas run_defs = optimize_param_def fixed_params_of_def optimize_one_def example_runtime_def
  func_to_optimize_def gather_params_to_pass_def py_insert_def encode_value_def

lemma st0_cleared: "st0\<lparr>results_of_single_param_optimization := []\<rparr> = st0"
  by (simp add: st0_def)

lemma ramp_sweep1:
  "sweep (example_runtime one_step) ramp [(0, 10)] [0..<length [p0]]
     \<lparr>result_value = 0, settings = [p0]\<rparr> st0 = (Inr ramp_best1, ramp_st1)"
  by (simp add: run_defs one_step_def ramp_def p0_def st0_def ramp_best1_def ramp_st1_def)

lemma ramp_sweep2:
  "sweep (example_runtime one_step) ramp [(0, 10)] [0..<length [p0]] ramp_best1 ramp_st1
     = (Inr ramp_best2, ramp_st2)"
  by (simp add: run_defs one_step_def ramp_def ramp_best1_def ramp_st1_def
        ramp_best2_def ramp_st2_def)


lemma ramp_echo: "\<forall>xs. length (snd (ramp xs)) = length xs"
  by (simp add: ramp_def)

lemma ramp_pair_run:
  "optimize_all (example_runtime one_step) ramp [p0, p1] [(0, 10), (0, 10)] st0
     = Some (Inr pair_result, pair_state)"
  apply (simp add: optimize_all_def st0_cleared)
  apply (subst optimize_loop.simps)
  apply (simp add: run_defs one_step_def ramp_def p0_def p1_def st0_def
           MIN_DIFF_BETWEEN_ITERATIONS_def)
  apply (subst optimize_loop.simps)
  apply (simp add: run_defs one_step_def ramp_def pair_result_def pair_state_def
           MIN_DIFF_BETWEEN_ITERATIONS_def)
  done

lemma flat_sweep:
  "sweep (example_runtime one_step) flat [(0, 10), (0, 10)] [0..<length [p0, p1]]
     \<lparr>result_value = 0, settings = [p0, p1]\<rparr>
     (st0\<lparr>results_of_single_param_optimization := []\<rparr>)
   = (Inr (hd (results_of_single_param_optimization flat_state)), flat_state)"
  by (simp add: run_defs one_step_def flat_def p0_def p1_def st0_def flat_state_def)

lemma peak_solver_run:
  "run_solver
     (\<lambda>x. func_to_optimize (example_runtime three_steps) peak [] x 0 (ratio p0) (is_int p0))
     (minimize (example_runtime three_steps) (float_of_num (param_value p0)) (0, 10))
     (st0\<lparr>results_of_single_param_optimization := []\<rparr>) = (Inr 2, peak_recorded)"
  by (simp add: run_defs three_steps_def peak_def p0_def st0_def peak_best_def
        peak_recorded_def)

lemma peak_run:
  "optimize_one (example_runtime three_steps) peak p0 (0, 10) 0 [] st0
     = (Inr peak_best, peak_state)"
  by (simp add: run_defs three_steps_def peak_def p0_def st0_def peak_best_def peak_state_def)

section \<open>The claims\<close>

text \<open>
  C1. Once a full sweep has completed with result \<open>best'\<close>: if
  \<open>best'.value - prev.value < 30\<close>, where \<open>prev\<close> is \<open>result_of_all_params_iteration\<close>,
  the loop returns \<open>prev\<close>, the result of the sweep before, and not \<open>best'\<close>; if the
  difference is 30 or more, and so when it is exactly 30, the loop does not return but
  goes on with another sweep from \<open>best'\<close>, which is also the new \<open>prev\<close>.
  \<open>optimize_all\<close> enters this loop with both results equal to the sentinel.
\<close>

theorem optimize_loop_convergence:
  assumes "sweep rt function bounds [0..<length params] best_result st = (Inr best', st')"
  shows "(result_value best' - result_value prev < MIN_DIFF_BETWEEN_ITERATIONS \<longrightarrow>
           optimize_loop rt function params bounds best_result prev st = Some (Inr prev, st'))
       \<and> (MIN_DIFF_BETWEEN_ITERATIONS \<le> result_value best' - result_value prev \<longrightarrow>
           optimize_loop rt function params bounds best_result prev st
             = optimize_loop rt function params bounds best' best' st')"
  using assms by (subst optimize_loop.simps, simp)+

theorem optimize_loop_convergence_witness:
  "sweep (example_runtime one_step) ramp [(0, 10)] [0..<length [p0]]
     \<lparr>result_value = 0, settings = [p0]\<rparr> st0 = (Inr ramp_best1, ramp_st1)
   \<and> result_value ramp_best1 - result_value \<lparr>result_value = 0, settings = [p0]\<rparr>
       = MIN_DIFF_BETWEEN_ITERATIONS
   \<and> sweep (example_runtime one_step) ramp [(0, 10)] [0..<length [p0]] ramp_best1 ramp_st1
       = (Inr ramp_best2, ramp_st2)
   \<and> result_value ramp_best2 - result_value ramp_best1 < MIN_DIFF_BETWEEN_ITERATIONS
   \<and> optimize_all (example_runtime one_step) ramp [p0] [(0, 10)] st0
       = Some (Inr ramp_best1, ramp_st2)"
proof -
  let ?sentinel = "\<lparr>result_value = 0, settings = [p0]\<rparr>"
  have tie: "result_value ramp_best1 - result_value ?sentinel = MIN_DIFF_BETWEEN_ITERATIONS"
    by (simp add: ramp_best1_def MIN_DIFF_BETWEEN_ITERATIONS_def)
  have small: "result_value ramp_best2 - result_value ramp_best1 < MIN_DIFF_BETWEEN_ITERATIONS"
    by (simp add: ramp_best1_def ramp_best2_def MIN_DIFF_BETWEEN_ITERATIONS_def)
  have "optimize_loop (example_runtime one_step) ramp [p0] [(0, 10)] ?sentinel ?sentinel st0
          = optimize_loop (example_runtime one_step) ramp [p0] [(0, 10)]
              ramp_best1 ramp_best1 ramp_st1"
    using optimize_loop_convergence [OF ramp_sweep1, of ?sentinel] tie by simp
  also have "\<dots> = Some (Inr ramp_best1, ramp_st2)"
    using optimize_loop_convergence [OF ramp_sweep2, of ramp_best1] small by simp
  finally show ?thesis
    using ramp_sweep1 ramp_sweep2 tie small by (simp add: optimize_all_def st0_cleared)
qed

text \<open>
  C2. When the solver's run ends without an exception and has recorded at least one
  evaluation in the history, which the call emptied first, \<open>optimize_one\<close> returns one
  of the recorded results, and no recorded result has a greater value, whatever the
  order of recording. The optimum the solver reports is not used: with a solver that
  makes the same evaluations and reports any other point, \<open>optimize_one\<close> does the same.
\<close>

theorem optimize_one_returns_best:
  assumes "run_solver
             (\<lambda>x. func_to_optimize rt function fixed x i (ratio param) (is_int param))
             (minimize rt (float_of_num (param_value param)) b)
             (st\<lparr>results_of_single_param_optimization := []\<rparr>) = (Inr reported, st1)"
    and "results_of_single_param_optimization st1 \<noteq> []"
  shows "(\<exists>r. fst (optimize_one rt function param b i fixed st) = Inr r
            \<and> r \<in> set (results_of_single_param_optimization st1)
            \<and> (\<forall>r'\<in>set (results_of_single_param_optimization st1).
                  result_value r' \<le> result_value r))
       \<and> optimize_one (rt\<lparr>minimize := \<lambda>x0 bs. with_reported g (minimize rt x0 bs)\<rparr>)
           function param b i fixed st
         = optimize_one rt function param b i fixed st"
proof -
  let ?f = "\<lambda>x. func_to_optimize rt function fixed x i (ratio param) (is_int param)"
  let ?sol = "minimize rt (float_of_num (param_value param)) b"
  let ?st0 = "st\<lparr>results_of_single_param_optimization := []\<rparr>"
  let ?sorted = "sort_key (\<lambda>r. - result_value r) (results_of_single_param_optimization st1)"
  have "?sorted \<noteq> []"
    using assms(2) by (metis length_sort length_0_conv)
  then obtain r rest where hd: "?sorted = r # rest"
    by (cases ?sorted) auto
  have "fst (optimize_one rt function param b i fixed st) = Inr r"
    using assms(1) hd by (simp add: optimize_one_def Let_def)
  then have first: "\<exists>r. fst (optimize_one rt function param b i fixed st) = Inr r
            \<and> r \<in> set (results_of_single_param_optimization st1)
            \<and> (\<forall>r'\<in>set (results_of_single_param_optimization st1).
                  result_value r' \<le> result_value r)"
    using sort_key_head_max [OF hd] by blast
  have "run_solver ?f (with_reported g ?sol) ?st0 = (Inr (g reported), st1)"
    using assms(1) by (simp add: run_solver_with_reported)
  then have "optimize_one (rt\<lparr>minimize := \<lambda>x0 bs. with_reported g (minimize rt x0 bs)\<rparr>)
               function param b i fixed st
             = optimize_one rt function param b i fixed st"
    using assms(1) by (simp add: optimize_one_def func_to_optimize_minimize)
  then show ?thesis using first by simp
qed

theorem optimize_one_returns_best_witness:
  "run_solver
     (\<lambda>x. func_to_optimize (example_runtime three_steps) peak [] x 0 (ratio p0) (is_int p0))
     (minimize (example_runtime three_steps) (float_of_num (param_value p0)) (0, 10))
     (st0\<lparr>results_of_single_param_optimization := []\<rparr>) = (Inr 2, peak_recorded)
   \<and> map result_value (results_of_single_param_optimization peak_recorded) = [- 4, 0, - 1]
   \<and> optimize_one (example_runtime three_steps) peak p0 (0, 10) 0 [] st0
       = (Inr peak_best, peak_state)
   \<and> result_value peak_best = 0
   \<and> optimize_one
        (example_runtime three_steps
           \<lparr>minimize := \<lambda>x0 bs. with_reported (\<lambda>x. 7)
                                  (minimize (example_runtime three_steps) x0 bs)\<rparr>)
        peak p0 (0, 10) 0 [] st0 = (Inr peak_best, peak_state)"
proof -
  have ne: "results_of_single_param_optimization peak_recorded \<noteq> []"
    by (simp add: peak_recorded_def)
  from optimize_one_returns_best [OF peak_solver_run ne, of "\<lambda>x. 7"] show ?thesis
    using peak_solver_run
    by (simp add: peak_run peak_recorded_def peak_best_def)
qed

text \<open>
  C3. As the claim states it, the encoded integer of an integer-mode parameter would be
  the rounding of its value. The code applies \<open>int\<close>, which truncates: 2.7 is sent as 2,
  and its rounding is 3.
\<close>

theorem gather_params_to_pass_rounding_counterexample:
  "gather_params_to_pass (example_runtime one_step) 0 0 False False [q27]
     = [FloatV 0, IntV 2]
   \<and> IntV 2 \<noteq> IntV (round (float_of_num (param_value q27)))"
  by (simp add: gather_params_to_pass_def py_insert_def encode_value_def q27_def round_def)

text \<open>
  C3, amended. The sequence passed to the objective is the fixed parameters in their
  order, each in its wire form, with the wire form of the candidate at position \<open>i\<close>.
  The wire form of a ratio value is its text followed by \<open>k\<close>; of a non-ratio value in
  integer mode the integer \<open>n\<close> obtained by truncating toward zero, that is
  \<open>|n| \<le> |v| < |n| + 1\<close> with the sign of \<open>v\<close>; of any other value the float.
\<close>

theorem gather_params_to_pass_truncates:
  "(i \<le> length fixed \<longrightarrow>
      gather_params_to_pass rt x (int i) r ii fixed
        = map (\<lambda>p. encode_value rt (param_value p) (ratio p) (is_int p)) (take i fixed)
          @ encode_value rt (PyFloat x) r ii
          # map (\<lambda>p. encode_value rt (param_value p) (ratio p) (is_int p)) (drop i fixed))
   \<and> encode_value rt v True as_int = StrV (format_num rt v @ ''k'')
   \<and> encode_value rt v False False = FloatV (float_of_num v)
   \<and> (\<exists>n. encode_value rt v False True = IntV n
          \<and> \<bar>real_of_int n\<bar> \<le> \<bar>float_of_num v\<bar>
          \<and> \<bar>float_of_num v\<bar> < \<bar>real_of_int n\<bar> + 1
          \<and> 0 \<le> real_of_int n * float_of_num v)"
proof (intro conjI impI)
  assume "i \<le> length fixed"
  then show "gather_params_to_pass rt x (int i) r ii fixed
           = map (\<lambda>p. encode_value rt (param_value p) (ratio p) (is_int p)) (take i fixed)
             @ encode_value rt (PyFloat x) r ii
             # map (\<lambda>p. encode_value rt (param_value p) (ratio p) (is_int p)) (drop i fixed)"
    by (simp add: gather_params_to_pass_def py_insert_def Let_def min_def take_map drop_map)
next
  show "encode_value rt v True as_int = StrV (format_num rt v @ ''k'')"
    by (simp add: encode_value_def)
next
  show "encode_value rt v False False = FloatV (float_of_num v)"
    by (simp add: encode_value_def)
next
  show "\<exists>n. encode_value rt v False True = IntV n
             \<and> \<bar>real_of_int n\<bar> \<le> \<bar>float_of_num v\<bar>
             \<and> \<bar>float_of_num v\<bar> < \<bar>real_of_int n\<bar> + 1
             \<and> 0 \<le> real_of_int n * float_of_num v"
    using truncation_bounds [of v] by (simp add: encode_value_def)
qed

theorem gather_params_to_pass_truncates_witness:
  "(1::nat) \<le> length [q27]
   \<and> gather_params_to_pass (example_runtime one_step) 0 (int 1) False False [q27]
       = [IntV 2, FloatV 0]
   \<and> encode_value (example_runtime one_step) (PyFloat (- (27 / 10))) False True = IntV (- 2)"
  using gather_params_to_pass_truncates
          [of 1 "[q27]" "example_runtime one_step" 0 False False "PyFloat (- (27 / 10))"]
  by (simp add: encode_value_def q27_def)

text \<open>
  C4. As the claim states it, decoding what was encoded would give back both flags of
  every parameter and its value. A parameter with both flags set comes back with
  \<open>is_int\<close> false, and an integer-mode parameter of value 2.7 comes back with value 2.
\<close>

theorem codec_round_trip_counterexample:
  "decode_setting (example_runtime one_step) 5
     (encode_value (example_runtime one_step) (param_value p10) (ratio p10) (is_int p10))
     = Inr \<lparr>addr = 5, param_value = PyFloat 10, ratio = True, is_int = False\<rparr>
   \<and> is_int p10
   \<and> decode_setting (example_runtime one_step) 5
     (encode_value (example_runtime one_step) (param_value q27) (ratio q27) (is_int q27))
     = Inr \<lparr>addr = 5, param_value = PyInt 2, ratio = False, is_int = True\<rparr>
   \<and> float_of_num (param_value q27) = 27 / 10"
  by (simp add: encode_value_def example_runtime_def example_format_def example_float_def
        p10_def q27_def)

text \<open>
  C4, amended. Decoding the encoded form of a parameter always succeeds and gives a new
  object with the same \<open>ratio\<close> flag; its \<open>is_int\<close> flag is that of the parameter when
  the parameter is not a ratio, and false when it is; its value is the value of the
  parameter when the parameter is a ratio or is not in integer mode, and the value
  truncated toward zero otherwise. For a ratio this needs \<open>float\<close> to read back the text
  the value was formatted as. Numbers are reals here, so the values are equal, not near.
\<close>

theorem codec_round_trip_amended:
  assumes "ratio p \<longrightarrow>
             float_of_str rt (format_num rt (param_value p)) = Some (float_of_num (param_value p))"
  shows "\<exists>q. decode_setting rt a (encode_value rt (param_value p) (ratio p) (is_int p)) = Inr q
           \<and> addr q = a
           \<and> ratio q = ratio p
           \<and> is_int q = (is_int p \<and> \<not> ratio p)
           \<and> float_of_num (param_value q)
               = (if \<not> ratio p \<and> is_int p then real_of_int (int_of_num (param_value p))
                  else float_of_num (param_value p))"
proof (cases "ratio p")
  case True
  then show ?thesis using assms by (simp add: encode_value_def)
next
  case False
  then show ?thesis by (cases "is_int p") (simp_all add: encode_value_def)
qed

theorem codec_round_trip_amended_witness:
  "ratio p10
   \<and> float_of_str (example_runtime one_step)
        (format_num (example_runtime one_step) (param_value p10))
       = Some (float_of_num (param_value p10))
   \<and> (\<exists>q. decode_setting (example_runtime one_step) 5
              (encode_value (example_runtime one_step) (param_value p10) (ratio p10)
                 (is_int p10)) = Inr q
          \<and> ratio q \<and> \<not> is_int q \<and> float_of_num (param_value q) = 10)"
proof -
  have r: "ratio p10" by (simp add: p10_def)
  have f: "float_of_str (example_runtime one_step)
             (format_num (example_runtime one_step) (param_value p10))
           = Some (float_of_num (param_value p10))"
    by (simp add: example_runtime_def example_format_def example_float_def p10_def)
  then have h: "ratio p10 \<longrightarrow>
      float_of_str (example_runtime one_step)
        (format_num (example_runtime one_step) (param_value p10))
        = Some (float_of_num (param_value p10))"
    by simp
  from codec_round_trip_amended [OF h, of 5] show ?thesis
    using r f by (auto simp: p10_def)
qed

text \<open>
  Where the code does drop by position: when the object at index \<open>i\<close> stands at no
  other position of \<open>best_result.settings\<close>, the fixed parameters passed to
  \<open>optimize_one\<close> are the settings without position \<open>i\<close>, the others in their order.
  Equal values in different objects do not collide, and neither do aliased objects
  away from the current one. Every result that \<open>optimize_one\<close> returns has pairwise
  different objects as settings, so only the caller's own tuple can alias.
\<close>

lemma fixed_params_by_position:
  "(i < length (settings best_result)
      \<and> (\<forall>j<length (settings best_result).
             j \<noteq> i \<longrightarrow> addr (settings best_result ! j) \<noteq> addr (settings best_result ! i)) \<longrightarrow>
      optimize_param rt function bounds i best_result st
        = optimize_one rt function (settings best_result ! i) (bounds ! i) (int i)
            (take i (settings best_result) @ drop (Suc i) (settings best_result)) st)
   \<and> (optimize_one rt function param b k fixed st = (Inr r, st') \<longrightarrow>
        distinct (map addr (settings r)))"
proof (intro conjI impI)
  assume "i < length (settings best_result)
      \<and> (\<forall>j<length (settings best_result).
             j \<noteq> i \<longrightarrow> addr (settings best_result ! j) \<noteq> addr (settings best_result ! i))"
  then show "optimize_param rt function bounds i best_result st
        = optimize_one rt function (settings best_result ! i) (bounds ! i) (int i)
            (take i (settings best_result) @ drop (Suc i) (settings best_result)) st"
    using filter_addr_drop_current [of i "settings best_result"]
    by (simp add: optimize_param_def fixed_params_of_def Let_def)
next
  assume "optimize_one rt function param b k fixed st = (Inr r, st')"
  then show "distinct (map addr (settings r))"
    using optimize_one_recorded by blast
qed

lemma fixed_params_by_position_examples:
  "param_value p0 = param_value p1
   \<and> fixed_params_of [p0, p1] ([p0, p1] ! 0) = [p1]
   \<and> fixed_params_of [p1, p0, p0] ([p1, p0, p0] ! 0) = [p0, p0]"
  by (simp add: fixed_params_of_def p0_def p1_def)

text \<open>
  C5. The fixed parameters are meant to be the settings without position \<open>i\<close>, and the
  code takes them so when the current object stands nowhere else. With the same object at
  positions 0 and 1, as in \<open>params = (p, p)\<close>, the test \<open>param is not current_param\<close>
  leaves out both: at index 0 nothing is left where \<open>(p)\<close> should be, the objective is
  called with one value instead of two, the result has one setting, and the run ends at
  index 1 with IndexError.
\<close>

theorem optimize_all_aliased_params:
  "fixed_params_of [p0, p0] ([p0, p0] ! 0) = []
   \<and> take 0 [p0, p0] @ drop (Suc 0) [p0, p0] = [p0]
   \<and> objective_calls
        (snd (optimize_param (example_runtime one_step) flat [(0, 10), (0, 10)] 0
                \<lparr>result_value = 0, settings = [p0, p0]\<rparr> st0))
       = [[FloatV 1]]
   \<and> map_option fst
        (optimize_all (example_runtime one_step) flat [p0, p0] [(0, 10), (0, 10)] st0)
       = Some (Inl IndexError)"
  by (simp add: optimize_all_def optimize_loop.simps run_defs one_step_def flat_def p0_def
        st0_def)

text \<open>
  C6. When \<open>params\<close> and \<open>bounds\<close> differ in length, \<open>optimize_all\<close> raises
  DifferentListLengthException (the spec's LengthMismatch) at once: the state it leaves
  is the state it found, so the log of objective calls has not grown, and the history
  has not even been cleared.
\<close>

theorem optimize_all_length_mismatch:
  "length params \<noteq> length bounds \<Longrightarrow>
     optimize_all rt function params bounds st = Some (Inl DifferentListLengthException, st)"
  by (simp add: optimize_all_def)

theorem optimize_all_length_mismatch_witness:
  "length [p0, p1] \<noteq> length [(0::real, 1::real)] \<and>
   optimize_all (example_runtime one_step) flat [p0, p1] [(0, 1)] st0
     = Some (Inl DifferentListLengthException, st0)"
  using optimize_all_length_mismatch [of "[p0, p1]" "[(0, 1)]" "example_runtime one_step" flat st0]
  by simp

text \<open>
  C7. As the claim states it, an echoed sequence of the wrong length would make
  \<open>optimize_one\<close> fail. The code compares no lengths: with one fixed parameter and an
  objective that echoes nothing, \<open>optimize_one\<close> returns a result with no settings.
\<close>

theorem optimize_one_dimension_counterexample:
  "fst (optimize_one (example_runtime one_step) mute p0 (0, 10) 0 [p1] st0)
     = Inr \<lparr>result_value = 5, settings = []\<rparr>
   \<and> length (settings \<lparr>result_value = 5, settings = []\<rparr>) \<noteq> length [p1] + 1"
  by (simp add: run_defs one_step_def mute_def p0_def p1_def st0_def)

text \<open>
  C7, amended. \<open>optimize_one\<close> makes no check of the echoed length. When \<open>float\<close>
  accepts every echoed string without its last character, and the solver evaluates at
  least once, \<open>optimize_one\<close> returns a result, whatever the lengths of the echoed
  sequences are. The objective has then been called once at each point the solver
  evaluated, in order, on the gathered parameters of that point. For each of these
  calls, in order, one result was recorded: its value the score of the call, its
  settings the decoded echo of the call, as long as the echo. The history left is these
  results sorted by descending value, and the result returned is its first.
\<close>

theorem optimize_one_records_any_length:
  assumes "\<forall>xs s. StrV s \<in> set (snd (function xs)) \<longrightarrow> float_of_str rt (butlast s) \<noteq> None"
    and "minimize rt (float_of_num (param_value param)) b = Evaluate x0 k"
  shows "\<exists>r rest recorded st'.
           optimize_one rt function param b i fixed st = (Inr r, st')
         \<and> objective_calls st'
             = objective_calls st
               @ map (\<lambda>x. gather_params_to_pass rt x i (ratio param) (is_int param) fixed)
                   (evaluated_points
                      (\<lambda>x. - fst (function
                          (gather_params_to_pass rt x i (ratio param) (is_int param) fixed)))
                      (Evaluate x0 k))
         \<and> list_all2
              (\<lambda>rec x.
                 result_value rec
                   = fst (function
                       (gather_params_to_pass rt x i (ratio param) (is_int param) fixed))
                 \<and> length (settings rec)
                     = length (snd (function
                         (gather_params_to_pass rt x i (ratio param) (is_int param) fixed)))
                 \<and> (\<exists>a. decode_settings rt a
                            (snd (function
                               (gather_params_to_pass rt x i (ratio param) (is_int param)
                                  fixed)))
                          = Inr (settings rec)))
              recorded
              (evaluated_points
                 (\<lambda>x. - fst (function
                     (gather_params_to_pass rt x i (ratio param) (is_int param) fixed)))
                 (Evaluate x0 k))
         \<and> results_of_single_param_optimization st'
             = sort_key (\<lambda>r. - result_value r) recorded
         \<and> results_of_single_param_optimization st' = r # rest"
proof -
  let ?g = "\<lambda>x. gather_params_to_pass rt x i (ratio param) (is_int param) fixed"
  let ?h = "\<lambda>x. - fst (function (?g x))"
  let ?st0 = "st\<lparr>results_of_single_param_optimization := []\<rparr>"
  let ?pts = "evaluated_points ?h (Evaluate x0 k)"
  let ?R = "\<lambda>rec x. result_value rec = fst (function (?g x))
                 \<and> length (settings rec) = length (snd (function (?g x)))
                 \<and> (\<exists>a. decode_settings rt a (snd (function (?g x))) = Inr (settings rec))"
  from run_solver_records [OF assms(1), of fixed i "ratio param" "is_int param"
                             "Evaluate x0 k" ?st0]
  obtain y st1 new where
    run: "run_solver (\<lambda>x. func_to_optimize rt function fixed x i (ratio param) (is_int param))
            (Evaluate x0 k) ?st0 = (Inr y, st1)"
    and calls: "objective_calls st1 = objective_calls ?st0 @ map ?g ?pts"
    and res: "results_of_single_param_optimization st1
                = results_of_single_param_optimization ?st0 @ new"
    and rel: "list_all2 ?R new ?pts"
    by blast
  have new: "results_of_single_param_optimization st1 = new" using res by simp
  have "length new = length ?pts" using rel by (rule list_all2_lengthD)
  then have "new \<noteq> []" by auto
  then have "sort_key (\<lambda>r. - result_value r) new \<noteq> []"
    by (metis length_sort length_0_conv)
  then obtain r rest where hd: "sort_key (\<lambda>r. - result_value r) new = r # rest"
    by (cases "sort_key (\<lambda>r. - result_value r) new") auto
  let ?st' = "st1\<lparr>results_of_single_param_optimization := r # rest\<rparr>"
  have "optimize_one rt function param b i fixed st = (Inr r, ?st')"
    using run assms(2) new hd by (simp add: optimize_one_def Let_def)
  moreover have "objective_calls ?st' = objective_calls st @ map ?g ?pts"
    using calls by simp
  moreover have "results_of_single_param_optimization ?st'
                   = sort_key (\<lambda>r. - result_value r) new"
    using hd by simp
  moreover have "results_of_single_param_optimization ?st' = r # rest" by simp
  ultimately show ?thesis using rel by blast
qed

theorem optimize_one_records_any_length_witness:
  "set (snd (mute [FloatV 1, FloatV 0])) = {}
   \<and> minimize (example_runtime one_step) (float_of_num (param_value p0)) (0, 10)
       = Evaluate 1 (\<lambda>y. Finish 1)
   \<and> evaluated_points
        (\<lambda>x. - fst (mute (gather_params_to_pass (example_runtime one_step) x 0
                             (ratio p0) (is_int p0) [p1])))
        (Evaluate 1 (\<lambda>y. Finish 1)) = [1]
   \<and> gather_params_to_pass (example_runtime one_step) 1 0 (ratio p0) (is_int p0) [p1]
       = [FloatV 1, FloatV 0]
   \<and> optimize_one (example_runtime one_step) mute p0 (0, 10) 0 [p1] st0
       = (Inr \<lparr>result_value = 5, settings = []\<rparr>,
          \<lparr>results_of_single_param_optimization = [\<lparr>result_value = 5, settings = []\<rparr>],
            next_addr = 2, objective_calls = [[FloatV 1, FloatV 0]]\<rparr>)"
proof -
  have h1: "\<forall>xs s. StrV s \<in> set (snd (mute xs)) \<longrightarrow>
              float_of_str (example_runtime one_step) (butlast s) \<noteq> None"
    by (simp add: mute_def)
  have h2: "minimize (example_runtime one_step) (float_of_num (param_value p0)) (0, 10)
              = Evaluate 1 (\<lambda>y. Finish 1)"
    by (simp add: example_runtime_def one_step_def p0_def)
  have m: "\<And>xs. fst (mute xs) = 5" "\<And>xs. snd (mute xs) = []"
    by (simp_all add: mute_def)
  have g: "gather_params_to_pass (example_runtime one_step) 1 0 (ratio p0) (is_int p0) [p1]
             = [FloatV 1, FloatV 0]"
    by (simp add: gather_params_to_pass_def py_insert_def encode_value_def p0_def p1_def)
  from optimize_one_records_any_length [OF h1 h2, of 0 "[p1]" st0]
  obtain r rest recorded st' where
    one: "optimize_one (example_runtime one_step) mute p0 (0, 10) 0 [p1] st0 = (Inr r, st')"
    and calls: "objective_calls st' = [[FloatV 1, FloatV 0]]"
    by (auto simp: m g st0_def)
  have "optimize_one (example_runtime one_step) mute p0 (0, 10) 0 [p1] st0
       = (Inr \<lparr>result_value = 5, settings = []\<rparr>,
          \<lparr>results_of_single_param_optimization = [\<lparr>result_value = 5, settings = []\<rparr>],
            next_addr = 2, objective_calls = [[FloatV 1, FloatV 0]]\<rparr>)"
    by (simp add: run_defs one_step_def mute_def p0_def p1_def st0_def)
  then show ?thesis using h2 g one calls by (simp add: m)
qed

text \<open>
  C8. When the solver evaluates nothing, the history is empty after it, and taking its
  first element raises IndexError, the spec's EmptyHistory. \<open>optimize_one\<close> raises it,
  and \<open>optimize_all\<close>, which catches nothing, raises the same error to its caller.
\<close>

theorem optimize_one_empty_history:
  assumes "minimize rt (float_of_num (param_value param)) b = Finish x"
  shows "optimize_one rt function param b i fixed st
           = (Inl IndexError, st\<lparr>results_of_single_param_optimization := []\<rparr>)
       \<and> (length ps = length bs \<longrightarrow>
            optimize_all rt function (param # ps) (b # bs) st
              = Some (Inl IndexError, st\<lparr>results_of_single_param_optimization := []\<rparr>))"
proof -
  have one: "\<And>i fixed st. optimize_one rt function param b i fixed st
           = (Inl IndexError, st\<lparr>results_of_single_param_optimization := []\<rparr>)"
    using assms by (simp add: optimize_one_def)
  have "[0..<length (param # ps)] = 0 # [1..<Suc (length ps)]"
    by (simp add: upt_rec)
  then have "length ps = length bs \<Longrightarrow>
         optimize_all rt function (param # ps) (b # bs) st
           = Some (Inl IndexError, st\<lparr>results_of_single_param_optimization := []\<rparr>)"
    by (simp add: optimize_all_def optimize_loop.simps optimize_param_def one)
  then show ?thesis using one by simp
qed

theorem optimize_one_empty_history_witness:
  "minimize (example_runtime no_step) (float_of_num (param_value p0)) (0, 10) = Finish 0
   \<and> optimize_one (example_runtime no_step) flat p0 (0, 10) 0 [p1] st0 = (Inl IndexError, st0)
   \<and> length [p1] = length [(0::real, 10::real)]
   \<and> optimize_all (example_runtime no_step) flat [p0, p1] [(0, 10), (0, 10)] st0
       = Some (Inl IndexError, st0)"
proof -
  have h: "minimize (example_runtime no_step) (float_of_num (param_value p0)) (0, 10) = Finish 0"
    by (simp add: example_runtime_def no_step_def p0_def)
  from optimize_one_empty_history [OF h, of flat 0 "[p1]" st0 "[p1]" "[(0, 10)]"]
  show ?thesis using h by (simp add: st0_cleared)
qed

text \<open>
  C9. For \<open>params\<close> and \<open>bounds\<close> of one length and an objective that echoes as many
  settings as it receives values, every result that \<open>optimize_all\<close> returns has as many
  settings as there are \<open>params\<close>.
\<close>

theorem optimize_all_settings_length:
  assumes "length params = length bounds"
    and "\<forall>xs. length (snd (function xs)) = length xs"
    and "optimize_all rt function params bounds st = Some (Inr r, st')"
  shows "length (settings r) = length params"
proof -
  let ?sentinel = "\<lparr>result_value = 0, settings = params\<rparr>"
  have "optimize_loop rt function params bounds ?sentinel ?sentinel
          (st\<lparr>results_of_single_param_optimization := []\<rparr>) = Some (Inr r, st')"
    using assms(1,3) by (simp add: optimize_all_def)
  from optimize_loop_length [OF this assms(2), of r] show ?thesis by simp
qed

theorem optimize_all_settings_length_witness:
  "length [p0, p1] = length [(0::real, 10::real), (0, 10)]
   \<and> (\<forall>xs. length (snd (ramp xs)) = length xs)
   \<and> optimize_all (example_runtime one_step) ramp [p0, p1] [(0, 10), (0, 10)] st0
       = Some (Inr pair_result, pair_state)
   \<and> length (settings pair_result) = length [p0, p1]"
proof -
  have len: "length [p0, p1] = length [(0::real, 10::real), (0, 10)]" by simp
  from optimize_all_settings_length [OF len ramp_echo ramp_pair_run]
  show ?thesis using ramp_echo ramp_pair_run by simp
qed

text \<open>
  C10. Both results start as the sentinel, value 0 and the caller's \<open>params\<close>. When the
  first sweep completes with a best value below \<open>0 + 30\<close>, \<open>optimize_all\<close> returns the
  sentinel: a value no evaluation produced, and the parameters as they were passed.
\<close>

theorem optimize_all_returns_sentinel:
  assumes "length params = length bounds"
    and "sweep rt function bounds [0..<length params] \<lparr>result_value = 0, settings = params\<rparr>
           (st\<lparr>results_of_single_param_optimization := []\<rparr>) = (Inr best', st')"
    and "result_value best' < 0 + MIN_DIFF_BETWEEN_ITERATIONS"
  shows "optimize_all rt function params bounds st
           = Some (Inr \<lparr>result_value = 0, settings = params\<rparr>, st')"
  using assms by (simp add: optimize_all_def optimize_loop.simps)

theorem optimize_all_returns_sentinel_witness:
  "length [p0, p1] = length [(0::real, 10::real), (0, 10)]
   \<and> sweep (example_runtime one_step) flat [(0, 10), (0, 10)] [0..<length [p0, p1]]
        \<lparr>result_value = 0, settings = [p0, p1]\<rparr>
        (st0\<lparr>results_of_single_param_optimization := []\<rparr>)
       = (Inr (hd (results_of_single_param_optimization flat_state)), flat_state)
   \<and> result_value (hd (results_of_single_param_optimization flat_state))
       < 0 + MIN_DIFF_BETWEEN_ITERATIONS
   \<and> optimize_all (example_runtime one_step) flat [p0, p1] [(0, 10), (0, 10)] st0
       = Some (Inr \<lparr>result_value = 0, settings = [p0, p1]\<rparr>, flat_state)"
proof -
  have len: "length [p0, p1] = length [(0::real, 10::real), (0, 10)]" by simp
  have low: "result_value (hd (results_of_single_param_optimization flat_state))
               < 0 + MIN_DIFF_BETWEEN_ITERATIONS"
    by (simp add: flat_state_def MIN_DIFF_BETWEEN_ITERATIONS_def)
  from optimize_all_returns_sentinel [OF len flat_sweep low]
  show ?thesis using flat_sweep low by simp
qed

end
